theory Spec2Isabelle
  imports Main "HOL-Library.Multiset" "HOL-Library.Sublist"
begin

section \<open>Strings and errors\<close>

text \<open>
  Go strings are byte sequences, modelled as \<open>string\<close>. The two functions of package
  \<open>strings\<close> the code calls are written out: \<open>HasPrefix\<close> compares the first
  \<open>len(prefix)\<close> bytes, \<open>Contains\<close> searches for the first position at which
  \<open>substr\<close> starts.
\<close>

definition HasPrefix :: "string \<Rightarrow> string \<Rightarrow> bool" where
  "HasPrefix s pre = (length pre \<le> length s \<and> take (length pre) s = pre)"

fun Contains :: "string \<Rightarrow> string \<Rightarrow> bool" where
  "Contains [] substr = (substr = [])"
| "Contains (c # s) substr = (HasPrefix (c # s) substr \<or> Contains s substr)"

text \<open>
  A Go \<open>error\<close> is an interface value: \<open>nil\<close>, or a value of which the code reads
  only the text \<open>err.Error()\<close>. \<open>None\<close> is \<open>nil\<close>, \<open>Some msg\<close> an error with
  that text.
\<close>

type_synonym error = "string option"

text \<open>\<open>isMissingScopeError\<close>: the classifier of permission-denial signals.\<close>

definition isMissingScopeError :: "error \<Rightarrow> bool" where
  "isMissingScopeError err =
     (case err of
        None \<Rightarrow> False
      | Some errStr \<Rightarrow>
          Contains errStr ''missing_scope'' \<or>
          Contains errStr ''not_allowed'' \<or>
          Contains errStr ''access_denied'')"

text \<open>
  The text of \<open>context.Canceled\<close> of the Go standard library, the error a remote call
  returns when its context is cancelled.
\<close>

definition context_Canceled :: error where
  "context_Canceled = Some ''context canceled''"

section \<open>Scopes\<close>

text \<open>\<open>type Scope string\<close>: every string is a scope; thirteen are named.\<close>

type_synonym Scope = string

definition ScopeChannelsRead :: Scope where "ScopeChannelsRead = ''channels:read''"
definition ScopeChannelsHistory :: Scope where "ScopeChannelsHistory = ''channels:history''"
definition ScopeGroupsRead :: Scope where "ScopeGroupsRead = ''groups:read''"
definition ScopeGroupsHistory :: Scope where "ScopeGroupsHistory = ''groups:history''"
definition ScopeIMRead :: Scope where "ScopeIMRead = ''im:read''"
definition ScopeIMHistory :: Scope where "ScopeIMHistory = ''im:history''"
definition ScopeIMWrite :: Scope where "ScopeIMWrite = ''im:write''"
definition ScopeMPIMRead :: Scope where "ScopeMPIMRead = ''mpim:read''"
definition ScopeMPIMHistory :: Scope where "ScopeMPIMHistory = ''mpim:history''"
definition ScopeMPIMWrite :: Scope where "ScopeMPIMWrite = ''mpim:write''"
definition ScopeUsersRead :: Scope where "ScopeUsersRead = ''users:read''"
definition ScopeChatWrite :: Scope where "ScopeChatWrite = ''chat:write''"
definition ScopeSearchRead :: Scope where "ScopeSearchRead = ''search:read''"

lemmas Scope_defs =
  ScopeChannelsRead_def ScopeChannelsHistory_def ScopeGroupsRead_def ScopeGroupsHistory_def
  ScopeIMRead_def ScopeIMHistory_def ScopeIMWrite_def ScopeMPIMRead_def ScopeMPIMHistory_def
  ScopeMPIMWrite_def ScopeUsersRead_def ScopeChatWrite_def ScopeSearchRead_def

section \<open>The remote API\<close>

text \<open>
  The three methods of the \<open>SlackAPI\<close> interface the probes call. Of each result the
  probes keep the error only, so a method is modelled by the error it returns for a
  request. The shared context is fixed during one detection run; what the remote service
  answers under that context (a cancellation included) is the value of the function.
\<close>

record GetConversationsParameters =
  Types :: "string list"
  Limit :: int

datatype GetUsersOption = GetUsersOptionLimit int

record SearchParameters =
  Count :: int

record SlackAPI =
  GetConversationsContext :: "GetConversationsParameters \<Rightarrow> error"
  GetUsersContext :: "GetUsersOption list \<Rightarrow> error"
  SearchContext :: "string \<Rightarrow> SearchParameters \<Rightarrow> error"

section \<open>The scope detector\<close>

text \<open>
  \<open>ScopeDetector\<close>: the client and the map \<open>detected\<close>. The logger only writes log
  lines and is left out; the mutex is discussed at \<open>DetectScopes\<close>.
\<close>

record ScopeDetector =
  client :: SlackAPI
  detected :: "Scope \<rightharpoonup> bool"

definition NewScopeDetector :: "SlackAPI \<Rightarrow> ScopeDetector" where
  "NewScopeDetector c = \<lparr>client = c, detected = Map.empty\<rparr>"

text \<open>Reading a Go \<open>map[Scope]bool\<close> at a missing key gives \<open>false\<close>.\<close>

definition index_bool :: "(Scope \<rightharpoonup> bool) \<Rightarrow> Scope \<Rightarrow> bool" where
  "index_bool m k = (case m k of None \<Rightarrow> False | Some b \<Rightarrow> b)"

definition setScope :: "ScopeDetector \<Rightarrow> Scope \<Rightarrow> bool \<Rightarrow> ScopeDetector" where
  "setScope sd scope available = sd\<lparr>detected := (detected sd)(scope \<mapsto> available)\<rparr>"

definition inferHistoryScopes :: "ScopeDetector \<Rightarrow> ScopeDetector" where
  "inferHistoryScopes sd =
     (let d0 = detected sd;
          d1 = (if index_bool d0 ScopeChannelsRead then d0(ScopeChannelsHistory \<mapsto> True) else d0);
          d2 = (if index_bool d1 ScopeGroupsRead then d1(ScopeGroupsHistory \<mapsto> True) else d1);
          d3 = (if index_bool d2 ScopeIMRead then d2(ScopeIMHistory \<mapsto> True) else d2);
          d4 = (if index_bool d3 ScopeMPIMRead then d3(ScopeMPIMHistory \<mapsto> True) else d3)
      in sd\<lparr>detected := d4\<rparr>)"

definition HasScope :: "ScopeDetector \<Rightarrow> Scope \<Rightarrow> bool" where
  "HasScope sd scope = index_bool (detected sd) scope"

definition HasAnyReadScope :: "ScopeDetector \<Rightarrow> bool" where
  "HasAnyReadScope sd =
     (HasScope sd ScopeChannelsRead \<or>
      HasScope sd ScopeGroupsRead \<or>
      HasScope sd ScopeIMRead \<or>
      HasScope sd ScopeMPIMRead)"

definition HasAnyHistoryScope :: "ScopeDetector \<Rightarrow> bool" where
  "HasAnyHistoryScope sd =
     (HasScope sd ScopeChannelsHistory \<or>
      HasScope sd ScopeGroupsHistory \<or>
      HasScope sd ScopeIMHistory \<or>
      HasScope sd ScopeMPIMHistory)"

definition AvailableChannelTypes :: "ScopeDetector \<Rightarrow> string list" where
  "AvailableChannelTypes sd =
     (let types0 = [];
          types1 = (if HasScope sd ScopeChannelsRead then types0 @ [''public_channel''] else types0);
          types2 = (if HasScope sd ScopeGroupsRead then types1 @ [''private_channel''] else types1);
          types3 = (if HasScope sd ScopeIMRead then types2 @ [''im''] else types2);
          types4 = (if HasScope sd ScopeMPIMRead then types3 @ [''mpim''] else types3)
      in types4)"

subsection \<open>The six probes\<close>

definition testChannelsRead :: "ScopeDetector \<Rightarrow> bool" where
  "testChannelsRead sd =
     (\<not> isMissingScopeError
          (GetConversationsContext (client sd) \<lparr>Types = [''public_channel''], Limit = 1\<rparr>))"

definition testGroupsRead :: "ScopeDetector \<Rightarrow> bool" where
  "testGroupsRead sd =
     (\<not> isMissingScopeError
          (GetConversationsContext (client sd) \<lparr>Types = [''private_channel''], Limit = 1\<rparr>))"

definition testIMRead :: "ScopeDetector \<Rightarrow> bool" where
  "testIMRead sd =
     (\<not> isMissingScopeError
          (GetConversationsContext (client sd) \<lparr>Types = [''im''], Limit = 1\<rparr>))"

definition testMPIMRead :: "ScopeDetector \<Rightarrow> bool" where
  "testMPIMRead sd =
     (\<not> isMissingScopeError
          (GetConversationsContext (client sd) \<lparr>Types = [''mpim''], Limit = 1\<rparr>))"

definition testUsersRead :: "ScopeDetector \<Rightarrow> bool" where
  "testUsersRead sd =
     (\<not> isMissingScopeError (GetUsersContext (client sd) [GetUsersOptionLimit 1]))"

definition testSearchRead :: "ScopeDetector \<Rightarrow> bool" where
  "testSearchRead sd =
     (\<not> isMissingScopeError (SearchContext (client sd) ''test'' \<lparr>Count = 1\<rparr>))"

lemmas test_defs =
  testChannelsRead_def testGroupsRead_def testIMRead_def testMPIMRead_def
  testUsersRead_def testSearchRead_def

subsection \<open>DetectScopes\<close>

text \<open>
  The table \<open>scopeTests\<close> of \<open>DetectScopes\<close>, and the body of the goroutine started
  for each entry: call the probe, then \<open>setScope\<close>.
\<close>

definition scopeTests :: "(Scope \<times> (ScopeDetector \<Rightarrow> bool)) list" where
  "scopeTests =
     [(ScopeChannelsRead, testChannelsRead),
      (ScopeGroupsRead, testGroupsRead),
      (ScopeIMRead, testIMRead),
      (ScopeMPIMRead, testMPIMRead),
      (ScopeUsersRead, testUsersRead),
      (ScopeSearchRead, testSearchRead)]"

definition goroutine :: "ScopeDetector \<Rightarrow> Scope \<times> (ScopeDetector \<Rightarrow> bool) \<Rightarrow> ScopeDetector" where
  "goroutine sd st = setScope sd (fst st) ((snd st) sd)"

text \<open>
  The six goroutines run concurrently. A probe reads only the client, which nothing
  writes; \<open>setScope\<close> holds the mutex, so the six writes happen one after the other, in
  an order the scheduler chooses. That order is the parameter \<open>order\<close>: a permutation of
  \<open>scopeTests\<close> (\<open>schedule\<close>). \<open>wg.Wait()\<close> returns after the six writes; then
  \<open>inferHistoryScopes\<close> runs. \<open>logDetectedScopes\<close> only logs.
\<close>

definition schedule :: "(Scope \<times> (ScopeDetector \<Rightarrow> bool)) list \<Rightarrow> bool" where
  "schedule order = (mset order = mset scopeTests)"

definition DetectScopes ::
    "(Scope \<times> (ScopeDetector \<Rightarrow> bool)) list \<Rightarrow> ScopeDetector \<Rightarrow> ScopeDetector" where
  "DetectScopes order sd = inferHistoryScopes (foldl goroutine sd order)"

text \<open>
  A probe reads nothing of the detector but its client. The property is used to show that
  the order of the six writes does not change what a probe returns.
\<close>

definition reads_client_only :: "(ScopeDetector \<Rightarrow> bool) \<Rightarrow> bool" where
  "reads_client_only t = (\<forall>sd sd'. client sd = client sd' \<longrightarrow> t sd = t sd')"

text \<open>
  The detector states of a process: created by \<open>NewScopeDetector\<close>, then changed by
  \<open>DetectScopes\<close> only (\<open>setScope\<close> and \<open>inferHistoryScopes\<close> are not exported and
  have no other caller). The remote service may answer differently in a later run; as a
  method of the client is modelled by its answers, a later run is taken with any answers
  \<open>c'\<close>.
\<close>

inductive reachable :: "ScopeDetector \<Rightarrow> bool" where
  new: "reachable (NewScopeDetector c)"
| detect: "reachable sd \<Longrightarrow> schedule order \<Longrightarrow>
     reachable (DetectScopes order (sd\<lparr>client := c'\<rparr>))"

subsection \<open>Remote services used as concrete inputs\<close>

text \<open>
  A service that grants listing public and private channels and answers every other probe
  with \<open>missing_scope\<close>.
\<close>

definition channelsOnlyClient :: SlackAPI where
  "channelsOnlyClient =
     \<lparr>GetConversationsContext =
        (\<lambda>params. if Types params = [''public_channel''] \<or> Types params = [''private_channel'']
                  then None else Some ''missing_scope''),
      GetUsersContext = (\<lambda>options. Some ''missing_scope''),
      SearchContext = (\<lambda>query params. Some ''missing_scope'')\<rparr>"

text \<open>A service whose every call fails because the shared context was cancelled.\<close>

definition cancelledClient :: SlackAPI where
  "cancelledClient =
     \<lparr>GetConversationsContext = (\<lambda>params. context_Canceled),
      GetUsersContext = (\<lambda>options. context_Canceled),
      SearchContext = (\<lambda>query params. context_Canceled)\<rparr>"

text \<open>A service that denies every probe.\<close>

definition deniedClient :: SlackAPI where
  "deniedClient =
     \<lparr>GetConversationsContext = (\<lambda>params. Some ''access_denied''),
      GetUsersContext = (\<lambda>options. Some ''not_allowed_token_type''),
      SearchContext = (\<lambda>query params. Some ''missing_scope'')\<rparr>"

section \<open>Resolving a channel reference in MessagesWithAttachmentsHandler\<close>

text \<open>
  The directory snapshot \<open>ProvideChannelsMaps\<close> returns is declared in package
  \<open>provider\<close>; the handler reads two maps of it, \<open>ChannelsInv\<close> from reference to key
  and \<open>Channels\<close> from key to channel, and of a channel the field \<open>ID\<close>. The snapshot
  is a parameter of the model.
\<close>

record Channel =
  ID :: string

record ChannelsCache =
  Channels :: "string \<rightharpoonup> Channel"
  ChannelsInv :: "string \<rightharpoonup> string"

text \<open>
  The arguments of the request as \<open>GetString\<close> and \<open>GetInt\<close> return them, defaults
  applied.
\<close>

record request_args =
  arg_channel_id :: string
  arg_limit :: int
  arg_cursor :: string

record GetConversationHistoryParameters =
  ChannelID :: string
  HistoryLimit :: int
  Cursor :: string
  Inclusive :: bool

datatype handler_error =
  AuthenticationFailed error
| ChannelIDRequired
| ChannelNotFound string

text \<open>
  The block "Resolve channel name to ID if needed". Reading \<open>Channels\<close> at a missing key
  gives the zero \<open>Channel\<close>, whose \<open>ID\<close> is the empty string.
\<close>

definition resolveChannelName :: "ChannelsCache \<Rightarrow> string \<Rightarrow> handler_error + string" where
  "resolveChannelName channelsMaps channelID =
     (if HasPrefix channelID ''#'' \<or> HasPrefix channelID ''@'' then
        (case ChannelsInv channelsMaps channelID of
           None \<Rightarrow> Inl (ChannelNotFound channelID)
         | Some chn \<Rightarrow>
             Inr (case Channels channelsMaps chn of None \<Rightarrow> [] | Some ch \<Rightarrow> ID ch))
      else Inr channelID)"

text \<open>
  \<open>MessagesWithAttachmentsHandler\<close> from its entry to the parameters of the history
  call: the authentication check (its result \<open>(authenticated, err)\<close> is a parameter), the
  required argument, the limit, the resolution block.
\<close>

definition MessagesWithAttachmentsHandler_historyParams ::
    "bool \<times> error \<Rightarrow> ChannelsCache \<Rightarrow> request_args \<Rightarrow>
     handler_error + GetConversationHistoryParameters" where
  "MessagesWithAttachmentsHandler_historyParams auth channelsMaps request =
     (if \<not> fst auth then Inl (AuthenticationFailed (snd auth))
      else if arg_channel_id request = [] then Inl ChannelIDRequired
      else
        (let limit = (if arg_limit request < 1 \<or> arg_limit request > 100
                      then 100 else arg_limit request)
         in case resolveChannelName channelsMaps (arg_channel_id request) of
              Inl e \<Rightarrow> Inl e
            | Inr channelID \<Rightarrow>
                Inr \<lparr>ChannelID = channelID, HistoryLimit = limit,
                     Cursor = arg_cursor request, Inclusive = False\<rparr>))"

section \<open>Credential resolution\<close>

text \<open>
  Modelled from the spec: the credential resolver (\<open>Resolve(sources)\<close>); its code is not
  among the source files, of which only the authentication guide states the priority.
  The sources are named configuration values in the order they are presented. The
  resolver takes the user token if present, else the bot token if present, else the
  session pair, which needs both of its secrets: one alone is \<open>IncompletePair\<close>, none
  is \<open>NoCredential\<close>.
\<close>

datatype SourceName = UserToken | BotToken | SessionToken | SessionCookie

datatype Credential = User string | Bot string | SessionPair string string

datatype CredentialError = NoCredential | IncompletePair

definition Resolve :: "(SourceName \<times> string) list \<Rightarrow> CredentialError + Credential" where
  "Resolve sources =
     (case map_of sources UserToken of
        Some u \<Rightarrow> Inr (User u)
      | None \<Rightarrow>
          (case map_of sources BotToken of
             Some b \<Rightarrow> Inr (Bot b)
           | None \<Rightarrow>
               (case (map_of sources SessionToken, map_of sources SessionCookie) of
                  (Some c, Some d) \<Rightarrow> Inr (SessionPair c d)
                | (None, None) \<Rightarrow> Inl NoCredential
                | _ \<Rightarrow> Inl IncompletePair)))"

section \<open>Properties of the string functions\<close>

text \<open>
  The two string functions agree with the list predicates of the library: \<open>HasPrefix\<close>
  with \<open>prefix\<close>, \<open>Contains\<close> with \<open>sublist\<close> (a contiguous run).
\<close>

lemma HasPrefix_iff_prefix: "HasPrefix s pre \<longleftrightarrow> prefix pre s"
  unfolding HasPrefix_def
  by (metis prefix_def append_eq_conv_conj take_is_prefix prefix_length_le)

lemma Contains_iff_sublist: "Contains s substr \<longleftrightarrow> sublist substr s"
  by (induction s) (auto simp: HasPrefix_iff_prefix sublist_Cons_right)

section \<open>What a detection run writes\<close>

lemma Scope_distinct:
  "distinct [ScopeChannelsRead, ScopeChannelsHistory, ScopeGroupsRead, ScopeGroupsHistory,
     ScopeIMRead, ScopeIMHistory, ScopeIMWrite, ScopeMPIMRead, ScopeMPIMHistory,
     ScopeMPIMWrite, ScopeUsersRead, ScopeChatWrite, ScopeSearchRead]"
  by (simp add: Scope_defs)

lemma client_setScope: "client (setScope sd s b) = client sd"
  by (simp add: setScope_def)

lemma client_goroutine: "client (goroutine sd st) = client sd"
  by (simp add: goroutine_def setScope_def)

lemma client_foldl_goroutine: "client (foldl goroutine sd xs) = client sd"
  by (induction xs arbitrary: sd) (simp_all add: client_goroutine)

lemma foldl_goroutine_other:
  "s \<notin> fst ` set xs \<Longrightarrow> detected (foldl goroutine sd xs) s = detected sd s"
  by (induction xs arbitrary: sd) (auto simp: goroutine_def setScope_def)

lemma foldl_goroutine_written:
  assumes "distinct (map fst xs)" "(s, t) \<in> set xs" "reads_client_only t"
  shows "detected (foldl goroutine sd xs) s = Some (t sd)"
  using assms
proof (induction xs arbitrary: sd)
  case Nil
  then show ?case by simp
next
  case (Cons x xs)
  show ?case
  proof (cases "x = (s, t)")
    case True
    with Cons.prems have "s \<notin> fst ` set xs" by auto
    then have "detected (foldl goroutine (goroutine sd x) xs) s = detected (goroutine sd x) s"
      by (rule foldl_goroutine_other)
    also have "\<dots> = Some (t sd)"
      using True by (simp add: goroutine_def setScope_def)
    finally show ?thesis by simp
  next
    case False
    with Cons.prems have "(s, t) \<in> set xs" "distinct (map fst xs)" by auto
    then have "detected (foldl goroutine (goroutine sd x) xs) s = Some (t (goroutine sd x))"
      using Cons.IH Cons.prems(3) by blast
    moreover have "t (goroutine sd x) = t sd"
      using Cons.prems(3) client_goroutine unfolding reads_client_only_def by blast
    ultimately show ?thesis by simp
  qed
qed


lemma scopeTests_keys: "distinct (map fst scopeTests)"
  by (simp add: scopeTests_def Scope_defs)

lemma scopeTests_reads_client_only: "(s, t) \<in> set scopeTests \<Longrightarrow> reads_client_only t"
  by (auto simp: scopeTests_def reads_client_only_def test_defs)

lemma schedule_keys: "schedule order \<Longrightarrow> distinct (map fst order)"
proof -
  assume "schedule order"
  then have "mset order = mset scopeTests"
    unfolding schedule_def .
  then have "image_mset fst (mset order) = image_mset fst (mset scopeTests)"
    by (rule arg_cong)
  then have "mset (map fst order) = mset (map fst scopeTests)"
    by (simp only: mset_map)
  then have "distinct (map fst order) = distinct (map fst scopeTests)"
    by (rule mset_eq_imp_distinct_iff)
  then show ?thesis
    using scopeTests_keys by (simp only:)
qed

lemma schedule_set: "schedule order \<Longrightarrow> set order = set scopeTests"
  unfolding schedule_def by (rule mset_eq_setD)

lemma probes_written:
  assumes "schedule order" "(s, t) \<in> set scopeTests"
  shows "detected (foldl goroutine sd order) s = Some (t sd)"
proof (rule foldl_goroutine_written)
  show "distinct (map fst order)"
    using assms(1) by (rule schedule_keys)
  show "(s, t) \<in> set order"
    using assms(2) schedule_set [OF assms(1)] by (simp only:)
  show "reads_client_only t"
    using assms(2) by (rule scopeTests_reads_client_only)
qed

lemma probes_other:
  assumes "schedule order" "s \<notin> fst ` set scopeTests"
  shows "detected (foldl goroutine sd order) s = detected sd s"
proof -
  have "set order = set scopeTests"
    using assms(1) by (rule schedule_set)
  with assms(2) have "s \<notin> fst ` set order"
    by (simp only: not_False_eq_True)
  then show ?thesis
    by (rule foldl_goroutine_other)
qed


lemma client_inferHistoryScopes: "client (inferHistoryScopes sd) = client sd"
  by (simp add: inferHistoryScopes_def Let_def)

lemma inferHistoryScopes_detected:
  "detected (inferHistoryScopes sd) s =
     (if s = ScopeChannelsHistory \<and> HasScope sd ScopeChannelsRead then Some True
      else if s = ScopeGroupsHistory \<and> HasScope sd ScopeGroupsRead then Some True
      else if s = ScopeIMHistory \<and> HasScope sd ScopeIMRead then Some True
      else if s = ScopeMPIMHistory \<and> HasScope sd ScopeMPIMRead then Some True
      else detected sd s)"
  by (simp add: inferHistoryScopes_def Let_def HasScope_def index_bool_def Scope_defs)

lemma scopeTests_mem:
  "(ScopeChannelsRead, testChannelsRead) \<in> set scopeTests"
  "(ScopeGroupsRead, testGroupsRead) \<in> set scopeTests"
  "(ScopeIMRead, testIMRead) \<in> set scopeTests"
  "(ScopeMPIMRead, testMPIMRead) \<in> set scopeTests"
  "(ScopeUsersRead, testUsersRead) \<in> set scopeTests"
  "(ScopeSearchRead, testSearchRead) \<in> set scopeTests"
  by (simp_all add: scopeTests_def)

lemma scopeTests_not_mem:
  "ScopeChannelsHistory \<notin> fst ` set scopeTests"
  "ScopeGroupsHistory \<notin> fst ` set scopeTests"
  "ScopeIMHistory \<notin> fst ` set scopeTests"
  "ScopeMPIMHistory \<notin> fst ` set scopeTests"
  "ScopeIMWrite \<notin> fst ` set scopeTests"
  "ScopeMPIMWrite \<notin> fst ` set scopeTests"
  "ScopeChatWrite \<notin> fst ` set scopeTests"
  by (simp_all add: scopeTests_def Scope_defs)

lemma DetectScopes_probed:
  assumes "schedule order" "(s, t) \<in> set scopeTests"
  shows "detected (DetectScopes order sd) s = Some (t sd)"
proof -
  have "s \<in> fst ` set scopeTests"
    using assms(2) by force
  then have "s \<noteq> ScopeChannelsHistory" "s \<noteq> ScopeGroupsHistory"
    "s \<noteq> ScopeIMHistory" "s \<noteq> ScopeMPIMHistory"
    using scopeTests_not_mem by blast+
  then have "detected (DetectScopes order sd) s = detected (foldl goroutine sd order) s"
    by (simp add: DetectScopes_def inferHistoryScopes_detected)
  then show ?thesis
    using assms by (simp add: probes_written)
qed

lemma HasScope_DetectScopes_probed:
  assumes "schedule order" "(s, t) \<in> set scopeTests"
  shows "HasScope (DetectScopes order sd) s = t sd"
  using DetectScopes_probed [OF assms] by (simp add: HasScope_def index_bool_def)


lemma inferHistoryScopes_history:
  "detected (inferHistoryScopes sd) ScopeChannelsHistory =
     (if HasScope sd ScopeChannelsRead then Some True else detected sd ScopeChannelsHistory)"
  "detected (inferHistoryScopes sd) ScopeGroupsHistory =
     (if HasScope sd ScopeGroupsRead then Some True else detected sd ScopeGroupsHistory)"
  "detected (inferHistoryScopes sd) ScopeIMHistory =
     (if HasScope sd ScopeIMRead then Some True else detected sd ScopeIMHistory)"
  "detected (inferHistoryScopes sd) ScopeMPIMHistory =
     (if HasScope sd ScopeMPIMRead then Some True else detected sd ScopeMPIMHistory)"
  by (simp_all add: inferHistoryScopes_def Let_def HasScope_def index_bool_def Scope_defs)

lemma DetectScopes_history:
  assumes "schedule order"
  shows "detected (DetectScopes order sd) ScopeChannelsHistory =
           (if testChannelsRead sd then Some True else detected sd ScopeChannelsHistory)"
    and "detected (DetectScopes order sd) ScopeGroupsHistory =
           (if testGroupsRead sd then Some True else detected sd ScopeGroupsHistory)"
    and "detected (DetectScopes order sd) ScopeIMHistory =
           (if testIMRead sd then Some True else detected sd ScopeIMHistory)"
    and "detected (DetectScopes order sd) ScopeMPIMHistory =
           (if testMPIMRead sd then Some True else detected sd ScopeMPIMHistory)"
proof -
  let ?sd = "foldl goroutine sd order"
  have r: "HasScope ?sd ScopeChannelsRead = testChannelsRead sd"
    "HasScope ?sd ScopeGroupsRead = testGroupsRead sd"
    "HasScope ?sd ScopeIMRead = testIMRead sd"
    "HasScope ?sd ScopeMPIMRead = testMPIMRead sd"
    by (simp_all add: HasScope_def index_bool_def scopeTests_mem [THEN probes_written [OF assms]])
  have h: "detected ?sd ScopeChannelsHistory = detected sd ScopeChannelsHistory"
    "detected ?sd ScopeGroupsHistory = detected sd ScopeGroupsHistory"
    "detected ?sd ScopeIMHistory = detected sd ScopeIMHistory"
    "detected ?sd ScopeMPIMHistory = detected sd ScopeMPIMHistory"
    using assms by (simp_all add: probes_other scopeTests_not_mem)
  show "detected (DetectScopes order sd) ScopeChannelsHistory =
           (if testChannelsRead sd then Some True else detected sd ScopeChannelsHistory)"
    by (simp add: DetectScopes_def inferHistoryScopes_history r h)
  show "detected (DetectScopes order sd) ScopeGroupsHistory =
           (if testGroupsRead sd then Some True else detected sd ScopeGroupsHistory)"
    by (simp add: DetectScopes_def inferHistoryScopes_history r h)
  show "detected (DetectScopes order sd) ScopeIMHistory =
           (if testIMRead sd then Some True else detected sd ScopeIMHistory)"
    by (simp add: DetectScopes_def inferHistoryScopes_history r h)
  show "detected (DetectScopes order sd) ScopeMPIMHistory =
           (if testMPIMRead sd then Some True else detected sd ScopeMPIMHistory)"
    by (simp add: DetectScopes_def inferHistoryScopes_history r h)
qed

lemma DetectScopes_other:
  assumes "schedule order" "s \<notin> fst ` set scopeTests"
    and "s \<noteq> ScopeChannelsHistory" "s \<noteq> ScopeGroupsHistory"
    and "s \<noteq> ScopeIMHistory" "s \<noteq> ScopeMPIMHistory"
  shows "detected (DetectScopes order sd) s = detected sd s"
  using assms by (simp add: DetectScopes_def inferHistoryScopes_detected probes_other)

lemma HasScope_fresh_history:
  assumes "schedule order"
  shows "HasScope (DetectScopes order (NewScopeDetector c)) ScopeChannelsHistory =
           testChannelsRead (NewScopeDetector c)"
    and "HasScope (DetectScopes order (NewScopeDetector c)) ScopeGroupsHistory =
           testGroupsRead (NewScopeDetector c)"
    and "HasScope (DetectScopes order (NewScopeDetector c)) ScopeIMHistory =
           testIMRead (NewScopeDetector c)"
    and "HasScope (DetectScopes order (NewScopeDetector c)) ScopeMPIMHistory =
           testMPIMRead (NewScopeDetector c)"
  using assms
  by (simp_all add: HasScope_def index_bool_def DetectScopes_history)
     (simp_all add: NewScopeDetector_def)

lemma HasScope_read:
  assumes "schedule order"
  shows "HasScope (DetectScopes order sd) ScopeChannelsRead = testChannelsRead sd"
    and "HasScope (DetectScopes order sd) ScopeGroupsRead = testGroupsRead sd"
    and "HasScope (DetectScopes order sd) ScopeIMRead = testIMRead sd"
    and "HasScope (DetectScopes order sd) ScopeMPIMRead = testMPIMRead sd"
    and "HasScope (DetectScopes order sd) ScopeUsersRead = testUsersRead sd"
    and "HasScope (DetectScopes order sd) ScopeSearchRead = testSearchRead sd"
  by (simp_all add: scopeTests_mem [THEN HasScope_DetectScopes_probed [OF assms]])

lemma schedule_scopeTests: "schedule scopeTests"
  by (simp add: schedule_def)

lemma schedule_rev_scopeTests: "schedule (rev scopeTests)"
  by (simp add: schedule_def)

text \<open>Unfolding the concrete services and the classifier, for evaluation.\<close>

lemmas eval_client =
  NewScopeDetector_def channelsOnlyClient_def cancelledClient_def deniedClient_def
  context_Canceled_def isMissingScopeError_def HasPrefix_def

section \<open>Scopes no run writes, and permuted sources\<close>

lemma fresh_detected: "detected (NewScopeDetector c) s = None"
  by (simp add: NewScopeDetector_def)

lemma write_scopes_untouched:
  assumes "schedule order"
  shows "detected (DetectScopes order sd) ScopeIMWrite = detected sd ScopeIMWrite"
    and "detected (DetectScopes order sd) ScopeMPIMWrite = detected sd ScopeMPIMWrite"
    and "detected (DetectScopes order sd) ScopeChatWrite = detected sd ScopeChatWrite"
proof -
  have d: "ScopeIMWrite \<noteq> ScopeChannelsHistory" "ScopeIMWrite \<noteq> ScopeGroupsHistory"
    "ScopeIMWrite \<noteq> ScopeIMHistory" "ScopeIMWrite \<noteq> ScopeMPIMHistory"
    "ScopeMPIMWrite \<noteq> ScopeChannelsHistory" "ScopeMPIMWrite \<noteq> ScopeGroupsHistory"
    "ScopeMPIMWrite \<noteq> ScopeIMHistory" "ScopeMPIMWrite \<noteq> ScopeMPIMHistory"
    "ScopeChatWrite \<noteq> ScopeChannelsHistory" "ScopeChatWrite \<noteq> ScopeGroupsHistory"
    "ScopeChatWrite \<noteq> ScopeIMHistory" "ScopeChatWrite \<noteq> ScopeMPIMHistory"
    by (simp_all add: Scope_defs)
  show "detected (DetectScopes order sd) ScopeIMWrite = detected sd ScopeIMWrite"
    using assms scopeTests_not_mem(5) d(1-4) by (rule DetectScopes_other)
  show "detected (DetectScopes order sd) ScopeMPIMWrite = detected sd ScopeMPIMWrite"
    using assms scopeTests_not_mem(6) d(5-8) by (rule DetectScopes_other)
  show "detected (DetectScopes order sd) ScopeChatWrite = detected sd ScopeChatWrite"
    using assms scopeTests_not_mem(7) d(9-12) by (rule DetectScopes_other)
qed

lemma reachable_write_scopes:
  assumes "reachable sd"
  shows "detected sd ScopeIMWrite = None \<and> detected sd ScopeMPIMWrite = None \<and>
         detected sd ScopeChatWrite = None"
  using assms
proof (induction rule: reachable.induct)
  case (new c)
  show ?case by (simp add: fresh_detected)
next
  case (detect sd order c')
  then show ?case by (simp add: write_scopes_untouched)
qed

lemma map_of_mset_eq:
  assumes "distinct (map fst xs)" "mset ys = mset xs"
  shows "map_of ys = map_of xs"
proof -
  have "mset (map fst ys) = mset (map fst xs)"
    using assms(2) by (metis mset_map)
  then have "distinct (map fst ys) = distinct (map fst xs)"
    by (rule mset_eq_imp_distinct_iff)
  then have "distinct (map fst ys)"
    using assms(1) by (simp only:)
  moreover have "set ys = set xs"
    using assms(2) by (rule mset_eq_setD)
  ultimately show ?thesis
    using assms(1) map_of_inject_set by blast
qed

section \<open>The claims\<close>

text \<open>
  C1. For every directly probed permission, under every order of the six writes, the run
  records the permission as available exactly when the error of the probe's remote call
  is not classified as a permission-denial signal by \<open>isMissingScopeError\<close>. A call
  without error (\<open>nil\<close>) is not so classified, hence recorded as available.
\<close>

theorem probe_records_classification:
  assumes "schedule order"
  shows "detected (DetectScopes order sd) ScopeChannelsRead =
           Some (\<not> isMissingScopeError
             (GetConversationsContext (client sd) \<lparr>Types = [''public_channel''], Limit = 1\<rparr>)) \<and>
         detected (DetectScopes order sd) ScopeGroupsRead =
           Some (\<not> isMissingScopeError
             (GetConversationsContext (client sd) \<lparr>Types = [''private_channel''], Limit = 1\<rparr>)) \<and>
         detected (DetectScopes order sd) ScopeIMRead =
           Some (\<not> isMissingScopeError
             (GetConversationsContext (client sd) \<lparr>Types = [''im''], Limit = 1\<rparr>)) \<and>
         detected (DetectScopes order sd) ScopeMPIMRead =
           Some (\<not> isMissingScopeError
             (GetConversationsContext (client sd) \<lparr>Types = [''mpim''], Limit = 1\<rparr>)) \<and>
         detected (DetectScopes order sd) ScopeUsersRead =
           Some (\<not> isMissingScopeError (GetUsersContext (client sd) [GetUsersOptionLimit 1])) \<and>
         detected (DetectScopes order sd) ScopeSearchRead =
           Some (\<not> isMissingScopeError (SearchContext (client sd) ''test'' \<lparr>Count = 1\<rparr>)) \<and>
         \<not> isMissingScopeError None"
  using scopeTests_mem [THEN DetectScopes_probed [OF assms], of sd]
  by (simp add: test_defs isMissingScopeError_def)

theorem probe_records_classification_witness:
  "schedule (rev scopeTests) \<and>
   detected (DetectScopes (rev scopeTests) (NewScopeDetector channelsOnlyClient)) ScopeChannelsRead
     = Some True \<and>
   detected (DetectScopes (rev scopeTests) (NewScopeDetector channelsOnlyClient)) ScopeIMRead
     = Some False \<and>
   detected (DetectScopes (rev scopeTests) (NewScopeDetector cancelledClient)) ScopeUsersRead
     = Some True"
  using probe_records_classification [OF schedule_rev_scopeTests,
      of "NewScopeDetector channelsOnlyClient"]
    probe_records_classification [OF schedule_rev_scopeTests,
      of "NewScopeDetector cancelledClient"]
  by (simp add: schedule_rev_scopeTests eval_client)

text \<open>
  C2. After the detection run of a newly created detector, for each of channels, groups,
  im and mpim, \<open>HasScope\<close> of the history permission equals \<open>HasScope\<close> of the paired
  read permission.
\<close>

theorem history_iff_read:
  assumes "schedule order"
  shows "(HasScope (DetectScopes order (NewScopeDetector c)) ScopeChannelsHistory =
          HasScope (DetectScopes order (NewScopeDetector c)) ScopeChannelsRead) \<and>
         (HasScope (DetectScopes order (NewScopeDetector c)) ScopeGroupsHistory =
          HasScope (DetectScopes order (NewScopeDetector c)) ScopeGroupsRead) \<and>
         (HasScope (DetectScopes order (NewScopeDetector c)) ScopeIMHistory =
          HasScope (DetectScopes order (NewScopeDetector c)) ScopeIMRead) \<and>
         (HasScope (DetectScopes order (NewScopeDetector c)) ScopeMPIMHistory =
          HasScope (DetectScopes order (NewScopeDetector c)) ScopeMPIMRead)"
  by (simp add: HasScope_fresh_history [OF assms] HasScope_read [OF assms])

theorem history_iff_read_witness:
  "schedule scopeTests \<and>
   HasScope (DetectScopes scopeTests (NewScopeDetector channelsOnlyClient)) ScopeChannelsHistory \<and>
   HasScope (DetectScopes scopeTests (NewScopeDetector channelsOnlyClient)) ScopeChannelsRead \<and>
   \<not> HasScope (DetectScopes scopeTests (NewScopeDetector channelsOnlyClient)) ScopeIMHistory \<and>
   \<not> HasScope (DetectScopes scopeTests (NewScopeDetector channelsOnlyClient)) ScopeIMRead"
  using history_iff_read [OF schedule_scopeTests, of channelsOnlyClient]
    HasScope_read [OF schedule_scopeTests, of "NewScopeDetector channelsOnlyClient"]
  by (simp add: schedule_scopeTests test_defs eval_client)

text \<open>
  C3 as stated fails. With a service whose calls all return the cancellation error, the
  run of a new detector records \<open>channels:read\<close> as available: the text
  \<open>context canceled\<close> contains none of the three markers of \<open>isMissingScopeError\<close>.
\<close>

theorem cancelled_probe_recorded_available_counterexample:
  "GetConversationsContext (client (NewScopeDetector cancelledClient))
     \<lparr>Types = [''public_channel''], Limit = 1\<rparr> = context_Canceled \<and>
   schedule scopeTests \<and>
   detected (DetectScopes scopeTests (NewScopeDetector cancelledClient)) ScopeChannelsRead
     = Some True \<and>
   HasScope (DetectScopes scopeTests (NewScopeDetector cancelledClient)) ScopeChannelsRead"
  using scopeTests_mem(1) [THEN DetectScopes_probed [OF schedule_scopeTests],
      of "NewScopeDetector cancelledClient"]
  by (simp add: schedule_scopeTests HasScope_def index_bool_def test_defs eval_client)

text \<open>
  C3, amended. For every probed permission, under every order of the six writes, if the
  probe's remote call returns the cancellation error, the permission is recorded as
  available.
\<close>

theorem cancelled_probe_recorded_available:
  assumes "schedule order"
  shows "(GetConversationsContext (client sd) \<lparr>Types = [''public_channel''], Limit = 1\<rparr>
            = context_Canceled \<longrightarrow>
          detected (DetectScopes order sd) ScopeChannelsRead = Some True) \<and>
         (GetConversationsContext (client sd) \<lparr>Types = [''private_channel''], Limit = 1\<rparr>
            = context_Canceled \<longrightarrow>
          detected (DetectScopes order sd) ScopeGroupsRead = Some True) \<and>
         (GetConversationsContext (client sd) \<lparr>Types = [''im''], Limit = 1\<rparr>
            = context_Canceled \<longrightarrow>
          detected (DetectScopes order sd) ScopeIMRead = Some True) \<and>
         (GetConversationsContext (client sd) \<lparr>Types = [''mpim''], Limit = 1\<rparr>
            = context_Canceled \<longrightarrow>
          detected (DetectScopes order sd) ScopeMPIMRead = Some True) \<and>
         (GetUsersContext (client sd) [GetUsersOptionLimit 1] = context_Canceled \<longrightarrow>
          detected (DetectScopes order sd) ScopeUsersRead = Some True) \<and>
         (SearchContext (client sd) ''test'' \<lparr>Count = 1\<rparr> = context_Canceled \<longrightarrow>
          detected (DetectScopes order sd) ScopeSearchRead = Some True)"
proof -
  have c: "\<not> isMissingScopeError context_Canceled"
    by (simp add: context_Canceled_def isMissingScopeError_def HasPrefix_def)
  show ?thesis
    using c scopeTests_mem [THEN DetectScopes_probed [OF assms], of sd]
    by (simp add: test_defs)
qed

theorem cancelled_probe_recorded_available_witness:
  "schedule (rev scopeTests) \<and>
   GetConversationsContext (client (NewScopeDetector cancelledClient))
     \<lparr>Types = [''public_channel''], Limit = 1\<rparr> = context_Canceled \<and>
   GetConversationsContext (client (NewScopeDetector cancelledClient))
     \<lparr>Types = [''private_channel''], Limit = 1\<rparr> = context_Canceled \<and>
   GetConversationsContext (client (NewScopeDetector cancelledClient))
     \<lparr>Types = [''im''], Limit = 1\<rparr> = context_Canceled \<and>
   GetConversationsContext (client (NewScopeDetector cancelledClient))
     \<lparr>Types = [''mpim''], Limit = 1\<rparr> = context_Canceled \<and>
   GetUsersContext (client (NewScopeDetector cancelledClient)) [GetUsersOptionLimit 1]
     = context_Canceled \<and>
   SearchContext (client (NewScopeDetector cancelledClient)) ''test'' \<lparr>Count = 1\<rparr>
     = context_Canceled \<and>
   detected (DetectScopes (rev scopeTests) (NewScopeDetector cancelledClient)) ScopeChannelsRead
     = Some True \<and>
   detected (DetectScopes (rev scopeTests) (NewScopeDetector cancelledClient)) ScopeGroupsRead
     = Some True \<and>
   detected (DetectScopes (rev scopeTests) (NewScopeDetector cancelledClient)) ScopeIMRead
     = Some True \<and>
   detected (DetectScopes (rev scopeTests) (NewScopeDetector cancelledClient)) ScopeMPIMRead
     = Some True \<and>
   detected (DetectScopes (rev scopeTests) (NewScopeDetector cancelledClient)) ScopeUsersRead
     = Some True \<and>
   detected (DetectScopes (rev scopeTests) (NewScopeDetector cancelledClient)) ScopeSearchRead
     = Some True"
  using cancelled_probe_recorded_available [OF schedule_rev_scopeTests,
      of "NewScopeDetector cancelledClient"]
  by (simp add: schedule_rev_scopeTests NewScopeDetector_def cancelledClient_def)

text \<open>
  C4. For every detector state, \<open>AvailableChannelTypes\<close> is the list public_channel,
  private_channel, im, mpim, in that order, restricted to the types whose read permission
  \<open>HasScope\<close> reports available; a type is in the result exactly when its read
  permission is available.
\<close>

theorem AvailableChannelTypes_exact:
  "AvailableChannelTypes sd =
     map fst (filter (\<lambda>(channelType, readScope). HasScope sd readScope)
       [(''public_channel'', ScopeChannelsRead), (''private_channel'', ScopeGroupsRead),
        (''im'', ScopeIMRead), (''mpim'', ScopeMPIMRead)]) \<and>
   (''public_channel'' \<in> set (AvailableChannelTypes sd)) = HasScope sd ScopeChannelsRead \<and>
   (''private_channel'' \<in> set (AvailableChannelTypes sd)) = HasScope sd ScopeGroupsRead \<and>
   (''im'' \<in> set (AvailableChannelTypes sd)) = HasScope sd ScopeIMRead \<and>
   (''mpim'' \<in> set (AvailableChannelTypes sd)) = HasScope sd ScopeMPIMRead"
  by (simp add: AvailableChannelTypes_def Let_def)

theorem AvailableChannelTypes_exact_witness:
  "AvailableChannelTypes
     \<lparr>client = deniedClient,
      detected = [ScopeChannelsRead \<mapsto> True, ScopeGroupsRead \<mapsto> False,
                  ScopeMPIMRead \<mapsto> True]\<rparr> =
     [''public_channel'', ''mpim'']"
  using AvailableChannelTypes_exact
    [of "\<lparr>client = deniedClient,
          detected = [ScopeChannelsRead \<mapsto> True, ScopeGroupsRead \<mapsto> False,
                      ScopeMPIMRead \<mapsto> True]\<rparr>"]
  by (simp add: HasScope_def index_bool_def Scope_defs)

text \<open>
  C5. If, for a new detector, the probes of \<open>channels:read\<close> and \<open>groups:read\<close>
  yield available and the probes of \<open>im:read\<close>, \<open>mpim:read\<close>, \<open>users:read\<close> and
  \<open>search:read\<close> yield unavailable, then after the run, under every order of the
  writes, the two read permissions and their history permissions are available, every
  im, mpim, users and search permission is unavailable, and \<open>AvailableChannelTypes\<close>
  is public_channel, private_channel in that order.
\<close>

theorem scenario_channels_only:
  assumes "schedule order"
    and "testChannelsRead (NewScopeDetector c)" and "testGroupsRead (NewScopeDetector c)"
    and "\<not> testIMRead (NewScopeDetector c)" and "\<not> testMPIMRead (NewScopeDetector c)"
    and "\<not> testUsersRead (NewScopeDetector c)" and "\<not> testSearchRead (NewScopeDetector c)"
  shows "HasScope (DetectScopes order (NewScopeDetector c)) ScopeChannelsRead \<and>
         HasScope (DetectScopes order (NewScopeDetector c)) ScopeGroupsRead \<and>
         HasScope (DetectScopes order (NewScopeDetector c)) ScopeChannelsHistory \<and>
         HasScope (DetectScopes order (NewScopeDetector c)) ScopeGroupsHistory \<and>
         \<not> HasScope (DetectScopes order (NewScopeDetector c)) ScopeIMRead \<and>
         \<not> HasScope (DetectScopes order (NewScopeDetector c)) ScopeIMHistory \<and>
         \<not> HasScope (DetectScopes order (NewScopeDetector c)) ScopeIMWrite \<and>
         \<not> HasScope (DetectScopes order (NewScopeDetector c)) ScopeMPIMRead \<and>
         \<not> HasScope (DetectScopes order (NewScopeDetector c)) ScopeMPIMHistory \<and>
         \<not> HasScope (DetectScopes order (NewScopeDetector c)) ScopeMPIMWrite \<and>
         \<not> HasScope (DetectScopes order (NewScopeDetector c)) ScopeUsersRead \<and>
         \<not> HasScope (DetectScopes order (NewScopeDetector c)) ScopeSearchRead \<and>
         AvailableChannelTypes (DetectScopes order (NewScopeDetector c)) =
           [''public_channel'', ''private_channel'']"
proof -
  have w: "\<not> HasScope (DetectScopes order (NewScopeDetector c)) ScopeIMWrite"
    "\<not> HasScope (DetectScopes order (NewScopeDetector c)) ScopeMPIMWrite"
    by (simp_all add: HasScope_def index_bool_def write_scopes_untouched [OF assms(1)]
        fresh_detected)
  show ?thesis
    using assms(2-7) w
    by (simp add: AvailableChannelTypes_def Let_def HasScope_fresh_history [OF assms(1)]
        HasScope_read [OF assms(1)])
qed

theorem scenario_channels_only_witness:
  "schedule (rev scopeTests) \<and>
   testChannelsRead (NewScopeDetector channelsOnlyClient) \<and>
   testGroupsRead (NewScopeDetector channelsOnlyClient) \<and>
   \<not> testIMRead (NewScopeDetector channelsOnlyClient) \<and>
   \<not> testMPIMRead (NewScopeDetector channelsOnlyClient) \<and>
   \<not> testUsersRead (NewScopeDetector channelsOnlyClient) \<and>
   \<not> testSearchRead (NewScopeDetector channelsOnlyClient) \<and>
   HasScope (DetectScopes (rev scopeTests) (NewScopeDetector channelsOnlyClient))
     ScopeGroupsHistory \<and>
   \<not> HasScope (DetectScopes (rev scopeTests) (NewScopeDetector channelsOnlyClient))
     ScopeMPIMHistory \<and>
   AvailableChannelTypes (DetectScopes (rev scopeTests) (NewScopeDetector channelsOnlyClient)) =
     [''public_channel'', ''private_channel'']"
proof -
  have t: "testChannelsRead (NewScopeDetector channelsOnlyClient)"
    "testGroupsRead (NewScopeDetector channelsOnlyClient)"
    "\<not> testIMRead (NewScopeDetector channelsOnlyClient)"
    "\<not> testMPIMRead (NewScopeDetector channelsOnlyClient)"
    "\<not> testUsersRead (NewScopeDetector channelsOnlyClient)"
    "\<not> testSearchRead (NewScopeDetector channelsOnlyClient)"
    by (simp_all add: test_defs eval_client)
  show ?thesis
    using scenario_channels_only [OF schedule_rev_scopeTests t] t
    by (simp add: schedule_rev_scopeTests)
qed

text \<open>
  C6. \<open>DetectScopes\<close> is a total function that returns a detector and has no error
  result. For every detector, whatever the remote service answers, and under every order
  of the writes, the map holds a boolean for each of the six probed permissions after the
  run.
\<close>

theorem DetectScopes_records_six:
  assumes "schedule order"
  shows "(\<exists>b. detected (DetectScopes order sd) ScopeChannelsRead = Some b) \<and>
         (\<exists>b. detected (DetectScopes order sd) ScopeGroupsRead = Some b) \<and>
         (\<exists>b. detected (DetectScopes order sd) ScopeIMRead = Some b) \<and>
         (\<exists>b. detected (DetectScopes order sd) ScopeMPIMRead = Some b) \<and>
         (\<exists>b. detected (DetectScopes order sd) ScopeUsersRead = Some b) \<and>
         (\<exists>b. detected (DetectScopes order sd) ScopeSearchRead = Some b)"
  by (simp add: scopeTests_mem [THEN DetectScopes_probed [OF assms]])

theorem DetectScopes_records_six_witness:
  "schedule scopeTests \<and>
   (\<exists>b. detected (DetectScopes scopeTests (NewScopeDetector deniedClient)) ScopeChannelsRead
      = Some b) \<and>
   (\<exists>b. detected (DetectScopes scopeTests (NewScopeDetector deniedClient)) ScopeGroupsRead
      = Some b) \<and>
   (\<exists>b. detected (DetectScopes scopeTests (NewScopeDetector deniedClient)) ScopeIMRead
      = Some b) \<and>
   (\<exists>b. detected (DetectScopes scopeTests (NewScopeDetector deniedClient)) ScopeMPIMRead
      = Some b) \<and>
   (\<exists>b. detected (DetectScopes scopeTests (NewScopeDetector deniedClient)) ScopeUsersRead
      = Some b) \<and>
   (\<exists>b. detected (DetectScopes scopeTests (NewScopeDetector deniedClient)) ScopeSearchRead
      = Some b) \<and>
   AvailableChannelTypes (DetectScopes scopeTests (NewScopeDetector deniedClient)) = []"
  using DetectScopes_records_six [OF schedule_scopeTests, of "NewScopeDetector deniedClient"]
    HasScope_read [OF schedule_scopeTests, of "NewScopeDetector deniedClient"]
  by (simp add: schedule_scopeTests AvailableChannelTypes_def test_defs eval_client)

text \<open>
  C9. \<open>HasScope\<close> is false for every scope on a new detector, and false for
  \<open>chat:write\<close>, \<open>im:write\<close> and \<open>mpim:write\<close> in every state the detector reaches
  by any number of detection runs.
\<close>

theorem HasScope_never_written:
  "\<not> HasScope (NewScopeDetector c) s \<and>
   (reachable sd \<longrightarrow>
      \<not> HasScope sd ScopeChatWrite \<and> \<not> HasScope sd ScopeIMWrite \<and>
      \<not> HasScope sd ScopeMPIMWrite)"
  using reachable_write_scopes [of sd]
  by (auto simp: HasScope_def index_bool_def fresh_detected)

theorem HasScope_never_written_witness:
  "reachable (DetectScopes scopeTests ((NewScopeDetector channelsOnlyClient)
      \<lparr>client := cancelledClient\<rparr>)) \<and>
   \<not> HasScope (DetectScopes scopeTests ((NewScopeDetector channelsOnlyClient)
      \<lparr>client := cancelledClient\<rparr>)) ScopeChatWrite \<and>
   \<not> HasScope (DetectScopes scopeTests ((NewScopeDetector channelsOnlyClient)
      \<lparr>client := cancelledClient\<rparr>)) ScopeIMWrite \<and>
   \<not> HasScope (DetectScopes scopeTests ((NewScopeDetector channelsOnlyClient)
      \<lparr>client := cancelledClient\<rparr>)) ScopeMPIMWrite \<and>
   \<not> HasScope (NewScopeDetector channelsOnlyClient) ScopeChannelsRead"
proof -
  have r: "reachable (DetectScopes scopeTests ((NewScopeDetector channelsOnlyClient)
      \<lparr>client := cancelledClient\<rparr>))"
    by (rule reachable.detect [OF reachable.new schedule_scopeTests])
  show ?thesis
    using r HasScope_never_written [of channelsOnlyClient ScopeChannelsRead
        "DetectScopes scopeTests ((NewScopeDetector channelsOnlyClient)
           \<lparr>client := cancelledClient\<rparr>)"]
    by simp
qed

text \<open>
  C10. After the detection run of a new detector, under every order of the writes,
  \<open>HasAnyHistoryScope\<close> equals \<open>HasAnyReadScope\<close>.
\<close>

theorem any_history_eq_any_read:
  assumes "schedule order"
  shows "HasAnyHistoryScope (DetectScopes order (NewScopeDetector c)) =
         HasAnyReadScope (DetectScopes order (NewScopeDetector c))"
  by (simp add: HasAnyHistoryScope_def HasAnyReadScope_def
      HasScope_fresh_history [OF assms] HasScope_read [OF assms])

theorem any_history_eq_any_read_witness:
  "schedule (rev scopeTests) \<and>
   HasAnyHistoryScope (DetectScopes (rev scopeTests) (NewScopeDetector channelsOnlyClient)) \<and>
   HasAnyReadScope (DetectScopes (rev scopeTests) (NewScopeDetector channelsOnlyClient)) \<and>
   \<not> HasAnyHistoryScope (DetectScopes (rev scopeTests) (NewScopeDetector deniedClient)) \<and>
   \<not> HasAnyReadScope (DetectScopes (rev scopeTests) (NewScopeDetector deniedClient))"
  using any_history_eq_any_read [OF schedule_rev_scopeTests, of channelsOnlyClient]
    any_history_eq_any_read [OF schedule_rev_scopeTests, of deniedClient]
    HasScope_read [OF schedule_rev_scopeTests, of "NewScopeDetector channelsOnlyClient"]
    HasScope_read [OF schedule_rev_scopeTests, of "NewScopeDetector deniedClient"]
  by (simp add: schedule_rev_scopeTests HasAnyReadScope_def test_defs eval_client)

text \<open>
  C7. In an authenticated request with a non-empty \<open>channel_id\<close>: a reference that
  starts with \<open>#\<close> or \<open>@\<close> and has no entry in \<open>ChannelsInv\<close> makes the handler
  return the not-found error, and no history parameters; a reference with neither prefix
  becomes the \<open>ChannelID\<close> of the history call unchanged.
\<close>

theorem resolve_reference:
  assumes "fst auth" and "arg_channel_id request \<noteq> []"
  shows "((HasPrefix (arg_channel_id request) ''#'' \<or> HasPrefix (arg_channel_id request) ''@'') \<and>
          ChannelsInv channelsMaps (arg_channel_id request) = None \<longrightarrow>
            MessagesWithAttachmentsHandler_historyParams auth channelsMaps request =
              Inl (ChannelNotFound (arg_channel_id request))) \<and>
         (\<not> HasPrefix (arg_channel_id request) ''#'' \<and>
          \<not> HasPrefix (arg_channel_id request) ''@'' \<longrightarrow>
            (\<exists>params.
               MessagesWithAttachmentsHandler_historyParams auth channelsMaps request =
                 Inr params \<and>
               ChannelID params = arg_channel_id request))"
  using assms
  by (simp add: MessagesWithAttachmentsHandler_historyParams_def resolveChannelName_def Let_def)

theorem resolve_reference_witness:
  "MessagesWithAttachmentsHandler_historyParams (True, None)
     \<lparr>Channels = Map.empty, ChannelsInv = Map.empty\<rparr>
     \<lparr>arg_channel_id = ''#unknown-channel'', arg_limit = 100, arg_cursor = []\<rparr> =
     Inl (ChannelNotFound ''#unknown-channel'') \<and>
   (\<exists>params.
      MessagesWithAttachmentsHandler_historyParams (True, None)
        \<lparr>Channels = Map.empty, ChannelsInv = Map.empty\<rparr>
        \<lparr>arg_channel_id = ''C1234567890'', arg_limit = 100, arg_cursor = []\<rparr> =
        Inr params \<and>
      ChannelID params = ''C1234567890'')"
  using resolve_reference [of "(True, None)"
      "\<lparr>arg_channel_id = ''#unknown-channel'', arg_limit = 100, arg_cursor = []\<rparr>"
      "\<lparr>Channels = Map.empty, ChannelsInv = Map.empty\<rparr>"]
    resolve_reference [of "(True, None)"
      "\<lparr>arg_channel_id = ''C1234567890'', arg_limit = 100, arg_cursor = []\<rparr>"
      "\<lparr>Channels = Map.empty, ChannelsInv = Map.empty\<rparr>"]
  by (simp add: HasPrefix_def)

text \<open>
  C8. For sources with one value per name: a user token present is selected; else a bot
  token present is selected; else a complete session pair is selected; and presenting the
  same sources in another order gives the same result.
\<close>

theorem Resolve_priority:
  assumes "distinct (map fst sources)"
  shows "((UserToken, u) \<in> set sources \<longrightarrow> Resolve sources = Inr (User u)) \<and>
         (UserToken \<notin> fst ` set sources \<and> (BotToken, b) \<in> set sources \<longrightarrow>
            Resolve sources = Inr (Bot b)) \<and>
         (UserToken \<notin> fst ` set sources \<and> BotToken \<notin> fst ` set sources \<and>
          (SessionToken, c) \<in> set sources \<and> (SessionCookie, d) \<in> set sources \<longrightarrow>
            Resolve sources = Inr (SessionPair c d)) \<and>
         (mset sources' = mset sources \<longrightarrow> Resolve sources' = Resolve sources)"
proof -
  have m: "\<And>k v. (k, v) \<in> set sources \<Longrightarrow> map_of sources k = Some v"
    using assms by simp
  have n: "\<And>k. k \<notin> fst ` set sources \<Longrightarrow> map_of sources k = None"
    by (simp add: map_of_eq_None_iff)
  have p: "mset sources' = mset sources \<Longrightarrow> map_of sources' = map_of sources"
    using assms by (rule map_of_mset_eq)
  have q: "mset sources' = mset sources \<Longrightarrow> Resolve sources' = Resolve sources"
    unfolding Resolve_def by (simp only: p)
  have "(UserToken, u) \<in> set sources \<longrightarrow> Resolve sources = Inr (User u)"
    by (auto simp: Resolve_def dest!: m)
  moreover have "UserToken \<notin> fst ` set sources \<and> (BotToken, b) \<in> set sources \<longrightarrow>
      Resolve sources = Inr (Bot b)"
    by (auto simp: Resolve_def n dest!: m)
  moreover have "UserToken \<notin> fst ` set sources \<and> BotToken \<notin> fst ` set sources \<and>
      (SessionToken, c) \<in> set sources \<and> (SessionCookie, d) \<in> set sources \<longrightarrow>
      Resolve sources = Inr (SessionPair c d)"
    by (auto simp: Resolve_def n dest!: m)
  ultimately show ?thesis
    using q by blast
qed

theorem Resolve_priority_witness:
  "distinct (map fst [(SessionCookie, ''xoxd-1''), (BotToken, ''xoxb-1''),
      (UserToken, ''xoxp-1''), (SessionToken, ''xoxc-1'')]) \<and>
   Resolve [(SessionCookie, ''xoxd-1''), (BotToken, ''xoxb-1''),
      (UserToken, ''xoxp-1''), (SessionToken, ''xoxc-1'')] = Inr (User ''xoxp-1'') \<and>
   Resolve (rev [(SessionCookie, ''xoxd-1''), (BotToken, ''xoxb-1''),
      (UserToken, ''xoxp-1''), (SessionToken, ''xoxc-1'')]) =
     Resolve [(SessionCookie, ''xoxd-1''), (BotToken, ''xoxb-1''),
      (UserToken, ''xoxp-1''), (SessionToken, ''xoxc-1'')] \<and>
   Resolve [(SessionCookie, ''xoxd-1''), (BotToken, ''xoxb-1''), (SessionToken, ''xoxc-1'')] =
     Inr (Bot ''xoxb-1'') \<and>
   Resolve [(SessionCookie, ''xoxd-1''), (SessionToken, ''xoxc-1'')] =
     Inr (SessionPair ''xoxc-1'' ''xoxd-1'')"
  using Resolve_priority [of "[(SessionCookie, ''xoxd-1''), (BotToken, ''xoxb-1''),
      (UserToken, ''xoxp-1''), (SessionToken, ''xoxc-1'')]" "''xoxp-1''" "''xoxb-1''"
      "''xoxc-1''" "''xoxd-1''" "rev [(SessionCookie, ''xoxd-1''), (BotToken, ''xoxb-1''),
      (UserToken, ''xoxp-1''), (SessionToken, ''xoxc-1'')]"]
    Resolve_priority [of "[(SessionCookie, ''xoxd-1''), (BotToken, ''xoxb-1''),
      (SessionToken, ''xoxc-1'')]" "''xoxp-1''" "''xoxb-1''" "''xoxc-1''" "''xoxd-1''" "[]"]
    Resolve_priority [of "[(SessionCookie, ''xoxd-1''), (SessionToken, ''xoxc-1'')]"
      "''xoxp-1''" "''xoxb-1''" "''xoxc-1''" "''xoxd-1''" "[]"]
  by simp

end
